theory Spec2Isabelle
  imports Main "HOL-Library.Sublist"
begin

section \<open>Bytes, strings and errors\<close>

text \<open>
  A Node \<open>Buffer\<close> is a sequence of bytes and a JavaScript string obtained from it by
  \<open>toString('latin1')\<close> or \<open>toString('ascii')\<close> is a sequence of code units below 256.
  Both are modelled as \<open>char list\<close>: an Isabelle \<open>char\<close> is exactly one byte.
\<close>

type_synonym bytes = string

abbreviation CR :: char where "CR \<equiv> CHR 0x0D"
abbreviation LF :: char where "LF \<equiv> CHR 0x0A"

definition CRLF :: string where
  "CRLF = [CR, LF]"

definition CRLFCRLF :: string where
  "CRLFCRLF = [CR, LF, CR, LF]"

text \<open>
  What the code throws: \<open>new HTTPError(status, message)\<close>, a plain \<open>new Error(message)\<close>,
  the \<open>TypeError\<close> of a property read on \<open>undefined\<close>, and the error object that the
  socket's \<open>'error'\<close> event stored in \<open>conn.err\<close>.
\<close>

datatype error = HTTPError int string | Error string | TypeError | SocketError

text \<open>\<open>buf.toString('ascii')\<close>: Node clears the highest bit of every byte.\<close>

fun ascii_char :: "char \<Rightarrow> char" where
  "ascii_char (Char b0 b1 b2 b3 b4 b5 b6 b7) = Char b0 b1 b2 b3 b4 b5 b6 False"

definition toString_ascii :: "bytes \<Rightarrow> string" where
  "toString_ascii b = map ascii_char b"

text \<open>\<open>buf.toString('latin1')\<close> and \<open>Buffer.from(s, 'latin1')\<close> keep every byte.\<close>

definition toString_latin1 :: "bytes \<Rightarrow> string" where
  "toString_latin1 b = b"

section \<open>The growable receive buffer (buffer-utils)\<close>

text \<open>
  \<open>type DynBuf = { data: Buffer, length: number }\<close>. The logical length is a JavaScript
  number that the code subtracts from without any check, so it is an \<open>int\<close>.
\<close>

record DynBuf =
  data :: bytes
  lengthD :: int

text \<open>
  \<open>TypedArray.prototype.copyWithin(target, start, end)\<close>: a negative index counts from the
  end, every index is clamped to the array, and \<open>min (end - start) (len - target)\<close> bytes
  are moved when that count is positive.
\<close>

definition rel_index :: "nat \<Rightarrow> int \<Rightarrow> nat" where
  "rel_index n i = (if i < 0 then nat (max (int n + i) 0) else nat (min i (int n)))"

definition copyWithin :: "bytes \<Rightarrow> int \<Rightarrow> int \<Rightarrow> int \<Rightarrow> bytes" where
  "copyWithin d target start end =
     (let n = length d;
          to = rel_index n target;
          from = rel_index n start;
          final = rel_index n end;
          count = min (int final - int from) (int n - int to)
      in if count > 0
         then take to d @ take (nat count) (drop from d) @ drop (to + nat count) d
         else d)"

text \<open>
  \<^verbatim>\<open>
  export function bufPop(buf: DynBuf, len: number): void {
      buf.data.copyWithin(0, len, buf.length);
      buf.length -= len;
  }
  \<close>
\<close>

definition bufPop :: "DynBuf \<Rightarrow> int \<Rightarrow> DynBuf" where
  "bufPop buf len =
     \<lparr> data = copyWithin (data buf) 0 len (lengthD buf),
       lengthD = lengthD buf - len \<rparr>"

text \<open>
  \<^verbatim>\<open>
  export function bufpush(buf: DynBuf, data: Buffer): void {
      buf.data = Buffer.concat([buf.data, data]);
      buf.length = buf.data.length;
  }
  \<close>
\<close>

definition bufpush :: "DynBuf \<Rightarrow> bytes \<Rightarrow> DynBuf" where
  "bufpush buf d =
     \<lparr> data = data buf @ d,
       lengthD = int (length (data buf @ d)) \<rparr>"

text \<open>\<open>b.subarray(start, end)\<close> and \<open>b.slice(start, end)\<close> of a Buffer, with the same index rules.\<close>

definition subarray :: "bytes \<Rightarrow> int \<Rightarrow> int \<Rightarrow> bytes" where
  "subarray d start end =
     (let s = rel_index (length d) start; e = rel_index (length d) end
      in take (e - s) (drop s d))"

text \<open>The valid region of a buffer, \<open>buf.data.subarray(0, buf.length)\<close>.\<close>

definition valid :: "DynBuf \<Rightarrow> bytes" where
  "valid buf = subarray (data buf) 0 (lengthD buf)"

text \<open>The data model's invariant: the logical length lies within the allocated bytes.\<close>

definition wf_buf :: "DynBuf \<Rightarrow> bool" where
  "wf_buf buf = (0 \<le> lengthD buf \<and> lengthD buf \<le> int (length (data buf)))"

section \<open>String helpers of the JavaScript runtime\<close>

text \<open>\<open>s.startsWith(p)\<close>.\<close>

definition startsWith :: "string \<Rightarrow> string \<Rightarrow> bool" where
  "startsWith s p = (take (length p) s = p)"

text \<open>
  \<open>haystack.indexOf(needle)\<close> of a string or a Buffer: the first position where the needle
  occurs, \<open>-1\<close> when it does not occur.
\<close>

fun indexOf_from :: "string \<Rightarrow> string \<Rightarrow> nat \<Rightarrow> int" where
  "indexOf_from [] p i = (if p = [] then int i else - 1)"
| "indexOf_from (x # xs) p i =
     (if startsWith (x # xs) p then int i else indexOf_from xs p (Suc i))"

definition indexOf :: "string \<Rightarrow> string \<Rightarrow> int" where
  "indexOf s p = indexOf_from s p 0"

text \<open>\<open>s.split(sep)\<close> for a one-character separator: \<open>n\<close> separators give \<open>n + 1\<close> parts.\<close>

fun split_on :: "char \<Rightarrow> string \<Rightarrow> string list" where
  "split_on sep [] = [[]]"
| "split_on sep (c # cs) =
     (if c = sep then [] # split_on sep cs
      else (case split_on sep cs of
              [] \<Rightarrow> [[c]]
            | p # ps \<Rightarrow> (c # p) # ps))"

text \<open>
  \<open>s.trim()\<close> removes white space and line terminators at both ends; among the code units
  below 256 these are TAB, LF, VT, FF, CR, SPACE and NBSP.
\<close>

definition isWhiteSpace :: "char \<Rightarrow> bool" where
  "isWhiteSpace c =
     (c \<in> set [CHR 0x09, CHR 0x0A, CHR 0x0B, CHR 0x0C, CHR 0x0D, CHR 0x20, CHR 0xA0])"

definition trim :: "string \<Rightarrow> string" where
  "trim s = rev (dropWhile isWhiteSpace (rev (dropWhile isWhiteSpace s)))"

text \<open>The regular expression class \<open>\d\<close>.\<close>

definition isDigit :: "char \<Rightarrow> bool" where
  "isDigit c = (c \<in> set ''0123456789'')"

text \<open>
  \<open>s.toLowerCase()\<close> on code units below 256: \<open>A\<close>-\<open>Z\<close> and the Latin-1 capitals
  \<open>0xC0\<close>-\<open>0xDE\<close> (without the multiplication sign \<open>0xD7\<close>) move up by \<open>0x20\<close>, which
  sets bit 5.
\<close>

definition isUpper :: "char \<Rightarrow> bool" where
  "isUpper c =
     (let n = (of_char c :: nat)
      in (65 \<le> n \<and> n \<le> 90) \<or> (192 \<le> n \<and> n \<le> 214) \<or> (216 \<le> n \<and> n \<le> 222))"

fun lower_char :: "char \<Rightarrow> char" where
  "lower_char (Char b0 b1 b2 b3 b4 b5 b6 b7) =
     (if isUpper (Char b0 b1 b2 b3 b4 b5 b6 b7)
      then Char b0 b1 b2 b3 b4 True b6 b7
      else Char b0 b1 b2 b3 b4 b5 b6 b7)"

definition toLowerCase :: "string \<Rightarrow> string" where
  "toLowerCase s = map lower_char s"

text \<open>
  A template literal \<open>`${n}`\<close> of an integral number: its decimal digits, with a minus
  sign when negative.
\<close>

function digits_of :: "nat \<Rightarrow> string" where
  "digits_of n =
     (if n < 10 then [''0123456789'' ! n]
      else digits_of (n div 10) @ [''0123456789'' ! (n mod 10)])"
  by pat_completeness auto
termination
  by (relation "measure (\<lambda>n. n)") auto

definition numToString :: "int \<Rightarrow> string" where
  "numToString i =
     (if i < 0 then CHR ''-'' # digits_of (nat (- i)) else digits_of (nat i))"

section \<open>The request parser (http-parser.ts)\<close>

record HTTPReq =
  methodH :: string
  uri :: bytes
  version :: string
  headers :: "bytes list"

text \<open>
  \<^verbatim>\<open>
  export function splitLines(data: Buffer): Buffer[] {
      const lines: Buffer[] = [];
      let start = 0;
      for (let i = 0; i < data.length; i++) {
          if (data[i] === 0x0A) {
              let end = i;
              if (i > 0 && data[i - 1] === 0x0D) { end = i - 1; }
              lines.push(data.slice(start, end));
              start = i + 1;
          }
      }
      if (start < data.length) { lines.push(data.slice(start)); }
      return lines;
  }
  \<close>
\<close>

function splitLines_loop :: "bytes \<Rightarrow> nat \<Rightarrow> nat \<Rightarrow> bytes list \<Rightarrow> bytes list" where
  "splitLines_loop d start i lines =
     (if i < length d then
        (if d ! i = LF then
           splitLines_loop d (i + 1) (i + 1)
             (lines @ [subarray d (int start)
                         (int (if 0 < i \<and> d ! (i - 1) = CR then i - 1 else i))])
         else splitLines_loop d start (i + 1) lines)
      else if start < length d then lines @ [subarray d (int start) (int (length d))]
      else lines)"
  by pat_completeness auto
termination
  by (relation "measure (\<lambda>(d, start, i, lines). length d - i)") auto

definition splitLines :: "bytes \<Rightarrow> bytes list" where
  "splitLines d = splitLines_loop d 0 0 []"

definition validMethods :: "string list" where
  "validMethods =
     [''GET'', ''POST'', ''PUT'', ''DELETE'', ''HEAD'', ''OPTIONS'', ''PATCH'', ''TRACE'']"

text \<open>
  The test \<open>version.match(/^HTTP\/\d+\.\d+$/)\<close>. The dot is not a digit, so the greedy
  \<open>\d+\<close> never has to give a digit back.
\<close>

definition matchVersion :: "string \<Rightarrow> bool" where
  "matchVersion v =
     (startsWith v ''HTTP/'' \<and>
      (let r = drop 5 v;
           major = takeWhile isDigit r;
           rest = dropWhile isDigit r
       in major \<noteq> [] \<and>
          (case rest of
             [] \<Rightarrow> False
           | c # minor \<Rightarrow> c = CHR ''.'' \<and> minor \<noteq> [] \<and> list_all isDigit minor)))"

text \<open>
  \<open>parseRequestLine(line)\<close> of http-parser.ts, lines 52-92. It returns the three tokens as
  they were split: the version token keeps its \<open>HTTP/\<close> prefix.
\<close>

definition parseRequestLine :: "bytes \<Rightarrow> error + (string \<times> bytes \<times> string)" where
  "parseRequestLine line =
     (let lineStr = toString_ascii line;
          parts = split_on (CHR '' '') lineStr
      in if length parts \<noteq> 3
         then Inl (HTTPError 400 ''Bad Request: Invalid request line format'')
         else
           (let method = parts ! 0; uri = parts ! 1; version = parts ! 2
            in if method = [] \<or> uri = [] \<or> version = []
               then Inl (HTTPError 400 ''Missing request line components'')
               else if method \<notin> set validMethods
               then Inl (HTTPError 405 (''Method Not Allowed: '' @ method))
               else if \<not> startsWith uri ''/''
               then Inl (HTTPError 400 ''Invalid URI format'')
               else if \<not> matchVersion version
               then Inl (HTTPError 400 ''Invalid HTTP version'')
               else Inr (method, uri, version)))"

text \<open>The class of \<open>tokenRegex\<close>, \<open>[!#$%&'*+\-.0-9A-Z^_`a-z|~]\<close>.\<close>

definition isTokenChar :: "char \<Rightarrow> bool" where
  "isTokenChar c =
     (c \<in> set (''!#$%&*+-.^_|~'' @ [CHR 0x27, CHR 0x60] @ ''0123456789''
               @ ''ABCDEFGHIJKLMNOPQRSTUVWXYZ'' @ ''abcdefghijklmnopqrstuvwxyz''))"

text \<open>The class of \<open>valueRegex\<close>, \<open>[\x09\x20-\x7E\x80-\xFF]\<close>.\<close>

definition isValueChar :: "char \<Rightarrow> bool" where
  "isValueChar c =
     (let n = (of_char c :: nat)
      in n = 9 \<or> (32 \<le> n \<and> n \<le> 126) \<or> 128 \<le> n)"

text \<open>\<open>validateHeader(header)\<close>, the same text in http-parser.ts and in dist/http-parser.js.\<close>

definition validateHeader :: "bytes \<Rightarrow> bool" where
  "validateHeader header =
     (let headerStr = toString_ascii header;
          colonIndex = indexOf headerStr '':''
      in if colonIndex = - 1 then False
         else
           (let name = trim (take (nat colonIndex) headerStr);
                val = trim (drop (nat (colonIndex + 1)) headerStr)
            in if name = [] then False
               else if \<not> list_all isTokenChar name then False
               else if \<not> list_all isValueChar val then False
               else if list_ex (\<lambda>c. (of_char c :: nat) < 32 \<and> c \<noteq> CHR 0x09) val then False
               else True))"

text \<open>
  The header loop of \<open>parseHTTPReq\<close> in http-parser.ts: it stops at the first empty line.
\<close>

fun collectHeaders :: "bytes list \<Rightarrow> bytes list \<Rightarrow> error + bytes list" where
  "collectHeaders [] hs = Inr hs"
| "collectHeaders (line # rest) hs =
     (if length line = 0 then Inr hs
      else if \<not> validateHeader line
      then Inl (HTTPError 400
                  (''Bad Request: Invalid header format - '' @ toString_ascii line))
      else collectHeaders rest (hs @ [line]))"

text \<open>
  \<open>parseHTTPReq(data)\<close> of http-parser.ts. With no line at all \<open>lines[0]\<close> is
  \<open>undefined\<close> and \<open>line.toString\<close> throws a \<open>TypeError\<close>.
\<close>

definition parseHTTPReq :: "bytes \<Rightarrow> error + HTTPReq" where
  "parseHTTPReq d =
     (case splitLines d of
        [] \<Rightarrow> Inl TypeError
      | line0 # rest \<Rightarrow>
          (case parseRequestLine line0 of
             Inl e \<Rightarrow> Inl e
           | Inr (m, u, v) \<Rightarrow>
               (case collectHeaders rest [] of
                  Inl e \<Rightarrow> Inl e
                | Inr hs \<Rightarrow> Inr \<lparr> methodH = m, uri = u, version = v, headers = hs \<rparr>)))"

text \<open>
  The header loop of the compiled \<open>parseHTTPReq\<close> in dist: every line after the request
  line is validated, the empty ones too (the \<open>console.assert\<close> after the loop only logs).
\<close>

fun collectHeaders_dist :: "bytes list \<Rightarrow> bytes list \<Rightarrow> error + bytes list" where
  "collectHeaders_dist [] hs = Inr hs"
| "collectHeaders_dist (line # rest) hs =
     (if \<not> validateHeader line
      then Inl (HTTPError 400
                  (''Bad Request: Invalid header format - '' @ toString_ascii line))
      else collectHeaders_dist rest (hs @ [line]))"

definition parseHTTPReq_dist :: "bytes \<Rightarrow> error + HTTPReq" where
  "parseHTTPReq_dist d =
     (case splitLines d of
        [] \<Rightarrow> Inl TypeError
      | line0 # rest \<Rightarrow>
          (case parseRequestLine line0 of
             Inl e \<Rightarrow> Inl e
           | Inr (m, u, v) \<Rightarrow>
               (case collectHeaders_dist rest [] of
                  Inl e \<Rightarrow> Inl e
                | Inr hs \<Rightarrow> Inr \<lparr> methodH = m, uri = u, version = v, headers = hs \<rparr>)))"

definition kMaxHeaderSize :: int where
  "kMaxHeaderSize = 1024 * 8"

text \<open>
  \<^verbatim>\<open>
  export function cutMessage(buf: DynBuf): null | HTTPReq {
    const idx = buf.data.subarray(0, buf.length).indexOf("\r\n\r\n");
    if (idx < 0) {
      if (buf.length > kMaxHeaderSize) {
        throw new HTTPError(413, "Request Entity Too Large");
      }
      return null;
    }
    const msg = parseHTTPReq(buf.data.subarray(0, idx + 4));
    bufPop(buf, idx + 4);
    return msg;
  }
  \<close>
  The result carries the buffer as the call leaves it.
\<close>

definition cutMessage :: "DynBuf \<Rightarrow> error + (HTTPReq option \<times> DynBuf)" where
  "cutMessage b =
     (let idx = indexOf (subarray (data b) 0 (lengthD b)) CRLFCRLF
      in if idx < 0 then
           (if lengthD b > kMaxHeaderSize
            then Inl (HTTPError 413 ''Request Entity Too Large'')
            else Inr (None, b))
         else
           (case parseHTTPReq (subarray (data b) 0 (idx + 4)) of
              Inl e \<Rightarrow> Inl e
            | Inr msg \<Rightarrow> Inr (Some msg, bufPop b (idx + 4))))"

section \<open>The server (the connection engine)\<close>

subsection \<open>The socket wrapper\<close>

text \<open>
  What the socket will emit while a read is waiting: a \<open>'data'\<close> event with a chunk, the
  \<open>'end'\<close> event, or an \<open>'error'\<close> event. \<open>TCPConn\<close> keeps the fields \<open>err\<close> and
  \<open>ended\<close> of the source; the socket itself is the list of the events still to come and
  the log of the chunks written to it. Events are delivered to a waiting read only.
\<close>

datatype event = Data bytes | End | Err

record TCPConn =
  events :: "event list"
  err :: "error option"
  ended :: bool
  written :: "bytes list"

text \<open>
  The state of a reader closure: \<open>readerFromMemory\<close> captures \<open>data\<close> and \<open>done\<close>,
  \<open>readerFromConnLength\<close> captures \<open>remain\<close> (and the connection and its buffer, which
  are the ones of the world below).
\<close>

datatype reader_state = MemoryReader bytes bool | ConnLengthReader int

text \<open>
  \<open>type BodyReader = { length: number, read: () => Promise<Buffer> }\<close>: an object with a
  fixed \<open>length\<close> and a closure. The handler may return the request's reader as the body of
  the response, so readers live in a store and a \<open>BodyReader\<close> value refers to its cell.
\<close>

record BodyReader =
  lengthR :: int
  ref :: nat

record world =
  conn :: TCPConn
  buf :: DynBuf
  readers :: "reader_state list"

text \<open>
  The outcome of an \<open>async\<close> call: it returns, it throws, its promise never settles
  (\<open>Pending\<close>: the socket has no further event), or the bounded loops of this model ran
  out of steps.
\<close>

datatype 'a result = Return 'a | Throw error | Pending | OutOfFuel

definition bind ::
  "'a result \<times> world \<Rightarrow> ('a \<Rightarrow> world \<Rightarrow> 'b result \<times> world) \<Rightarrow> 'b result \<times> world" where
  "bind m f =
     (case m of
        (Return a, w) \<Rightarrow> f a w
      | (Throw e, w) \<Rightarrow> (Throw e, w)
      | (Pending, w) \<Rightarrow> (Pending, w)
      | (OutOfFuel, w) \<Rightarrow> (OutOfFuel, w))"

text \<open>
  \<open>soRead(conn)\<close>: rejects with a stored error, resolves with the empty buffer after the
  end, and otherwise waits for the next event of the socket.
\<close>

definition soRead :: "world \<Rightarrow> bytes result \<times> world" where
  "soRead w =
     (let c = conn w
      in case err c of
           Some e \<Rightarrow> (Throw e, w)
         | None \<Rightarrow>
             if ended c then (Return [], w)
             else
               (case events c of
                  [] \<Rightarrow> (Pending, w)
                | Data d # es \<Rightarrow> (Return d, w\<lparr>conn := c\<lparr>events := es\<rparr>\<rparr>)
                | End # es \<Rightarrow> (Return [], w\<lparr>conn := c\<lparr>events := es, ended := True\<rparr>\<rparr>)
                | Err # es \<Rightarrow>
                    (Throw SocketError, w\<lparr>conn := c\<lparr>events := es, err := Some SocketError\<rparr>\<rparr>)))"

text \<open>\<open>soWrite(conn, data)\<close>: rejects with a stored error, otherwise the socket takes the chunk.\<close>

definition soWrite :: "bytes \<Rightarrow> world \<Rightarrow> unit result \<times> world" where
  "soWrite d w =
     (let c = conn w
      in case err c of
           Some e \<Rightarrow> (Throw e, w)
         | None \<Rightarrow> (Return (), w\<lparr>conn := c\<lparr>written := written c @ [d]\<rparr>\<rparr>))"

subsection \<open>Header utilities\<close>

text \<open>\<open>fieldGet(headers, key)\<close>, server lines 180-199.\<close>

fun fieldGet :: "bytes list \<Rightarrow> string \<Rightarrow> bytes option" where
  "fieldGet [] key = None"
| "fieldGet (header # rest) key =
     (let headerStr = toString_latin1 header;
          colonIndex = indexOf headerStr '':''
      in if colonIndex > 0 \<and>
            toLowerCase (trim (take (nat colonIndex) headerStr)) = toLowerCase key
         then Some (trim (drop (nat (colonIndex + 1)) headerStr))
         else fieldGet rest key)"

text \<open>
  \<open>parseDec(str) = parseInt(str, 10)\<close>: leading white space is skipped, one sign is
  accepted, then the longest run of decimal digits is read and whatever follows is
  ignored; with no digit the result is \<open>NaN\<close>, which is \<open>None\<close> here. The number is kept
  exact (a double is exact up to \<open>2^53\<close>).
\<close>

definition digitVal :: "char \<Rightarrow> nat" where
  "digitVal c = of_char c - 48"

definition parseDec :: "string \<Rightarrow> int option" where
  "parseDec str =
     (let s = dropWhile isWhiteSpace str;
          negative = startsWith s ''-'';
          s1 = (if startsWith s ''+'' \<or> startsWith s ''-'' then drop 1 s else s);
          z = takeWhile isDigit s1
      in if z = [] then None
         else Some ((if negative then - 1 else 1)
                      * int (foldl (\<lambda>a c. 10 * a + digitVal c) 0 z)))"

subsection \<open>Responses and body readers\<close>

record HTTPRes =
  code :: int
  headersR :: "bytes list"
  body :: BodyReader

text \<open>
  \<open>encodeHTTPResp(resp)\<close>: the status line, the header lines and one empty string, joined
  with CR LF.
\<close>

fun join :: "string \<Rightarrow> string list \<Rightarrow> string" where
  "join sep [] = []"
| "join sep [x] = x"
| "join sep (x # y # ys) = x @ sep @ join sep (y # ys)"

definition encodeHTTPResp :: "HTTPRes \<Rightarrow> bytes" where
  "encodeHTTPResp resp =
     join CRLF
       ([''HTTP/1.1 '' @ numToString (code resp) @ '' OK'']
        @ map toString_latin1 (headersR resp)
        @ [[]])"

text \<open>A new reader closure takes the next free cell of the store.\<close>

definition readerFromMemory :: "bytes \<Rightarrow> world \<Rightarrow> BodyReader result \<times> world" where
  "readerFromMemory d w =
     (Return \<lparr> lengthR = int (length d), ref = length (readers w) \<rparr>,
      w\<lparr>readers := readers w @ [MemoryReader d False]\<rparr>)"

definition readerFromConnLength :: "int \<Rightarrow> world \<Rightarrow> BodyReader result \<times> world" where
  "readerFromConnLength remain w =
     (Return \<lparr> lengthR = remain, ref = length (readers w) \<rparr>,
      w\<lparr>readers := readers w @ [ConnLengthReader remain]\<rparr>)"

text \<open>
  The \<open>read\<close> closure of \<open>readerFromMemory\<close> (server lines 260-268) and of
  \<open>readerFromConnLength\<close> (lines 291-312), on the captured state.
\<close>

definition read_memory :: "bytes \<Rightarrow> bool \<Rightarrow> bytes \<times> reader_state" where
  "read_memory d done =
     (if done then ([], MemoryReader d done) else (d, MemoryReader d True))"

definition take_body :: "int \<Rightarrow> world \<Rightarrow> (bytes \<times> reader_state) result \<times> world" where
  "take_body remain w =
     (let consume = min (lengthD (buf w)) remain;
          d = subarray (data (buf w)) 0 consume
      in (Return (d, ConnLengthReader (remain - consume)),
          w\<lparr>buf := bufPop (buf w) consume\<rparr>))"

definition read_connLength :: "int \<Rightarrow> world \<Rightarrow> (bytes \<times> reader_state) result \<times> world" where
  "read_connLength remain w =
     (if remain = 0 then (Return ([], ConnLengthReader remain), w)
      else if lengthD (buf w) = 0 then
        bind (soRead w) (\<lambda>d w1.
          let w2 = w1\<lparr>buf := bufpush (buf w1) d\<rparr>
          in if length d = 0
             then (Throw (Error ''Unexpected EOF from HTTP body''), w2)
             else take_body remain w2)
      else take_body remain w)"

definition read_state :: "reader_state \<Rightarrow> world \<Rightarrow> (bytes \<times> reader_state) result \<times> world" where
  "read_state st w =
     (case st of
        MemoryReader d done \<Rightarrow> (Return (read_memory d done), w)
      | ConnLengthReader remain \<Rightarrow> read_connLength remain w)"

text \<open>
  \<open>r.read()\<close>: run the closure on its cell and store the state it leaves. A reference
  always points into the store; the other branch is never taken.
\<close>

definition read :: "BodyReader \<Rightarrow> world \<Rightarrow> bytes result \<times> world" where
  "read r w =
     (if ref r < length (readers w) then
        bind (read_state (readers w ! ref r) w) (\<lambda>(d, st) w1.
          (Return d, w1\<lparr>readers := (readers w1)[ref r := st]\<rparr>))
      else (Throw TypeError, w))"

text \<open>\<open>readerFromReq(conn, buf, req)\<close>, server lines 334-370.\<close>

definition chunkedOf :: "HTTPReq \<Rightarrow> bool" where
  "chunkedOf req =
     (case fieldGet (headers req) ''Transfer-Encoding'' of
        None \<Rightarrow> False
      | Some v \<Rightarrow> v = ''chunked'')"

definition readerFromReq :: "HTTPReq \<Rightarrow> world \<Rightarrow> BodyReader result \<times> world" where
  "readerFromReq req w =
     (case (case fieldGet (headers req) ''Content-Length'' of
              None \<Rightarrow> Inr (- 1)
            | Some contentLen \<Rightarrow>
                (case parseDec (toString_latin1 contentLen) of
                   None \<Rightarrow> Inl (HTTPError 400 ''bad Content-Length.'')
                 | Some n \<Rightarrow> Inr n)) of
        Inl e \<Rightarrow> (Throw e, w)
      | Inr bodyLen0 \<Rightarrow>
          (let bodyAllowed = (methodH req \<noteq> ''GET'' \<and> methodH req \<noteq> ''HEAD'');
               chunked = chunkedOf req
           in if \<not> bodyAllowed \<and> (bodyLen0 > 0 \<or> chunked)
              then (Throw (HTTPError 400 ''HTTP body not allowed.''), w)
              else
                (let bodyLen = (if bodyAllowed then bodyLen0 else 0)
                 in if bodyLen \<ge> 0 then readerFromConnLength bodyLen w
                    else if chunked then (Throw (HTTPError 501 ''TODO: chunked encoding''), w)
                    else (Throw (HTTPError 501 ''TODO: read until EOF''), w))))"

subsection \<open>The handler and the connection loop\<close>

text \<open>\<open>handleReq(req, body)\<close>, server lines 389-408.\<close>

definition handleReq :: "HTTPReq \<Rightarrow> BodyReader \<Rightarrow> world \<Rightarrow> HTTPRes result \<times> world" where
  "handleReq req reqBody w =
     bind (if toString_latin1 (uri req) = ''/echo''
           then (Return reqBody, w)
           else readerFromMemory (''hello world.'' @ [LF]) w)
       (\<lambda>resp w1.
          (Return \<lparr> code = 200, headersR = [''Server: my_first_http_server''], body = resp \<rparr>,
           w1))"

text \<open>
  The loop of \<open>writeHTTPResp\<close> that streams the body: read, stop at an empty chunk,
  otherwise write the chunk. The first argument bounds the number of rounds.
\<close>

fun writeBody :: "nat \<Rightarrow> BodyReader \<Rightarrow> world \<Rightarrow> unit result \<times> world" where
  "writeBody 0 r w = (OutOfFuel, w)"
| "writeBody (Suc k) r w =
     bind (read r w) (\<lambda>d w1.
       if length d = 0 then (Return (), w1)
       else bind (soWrite d w1) (\<lambda>u w2. writeBody k r w2))"

text \<open>\<open>writeHTTPResp(conn, resp)\<close>, server lines 427-445.\<close>

definition writeHTTPResp :: "nat \<Rightarrow> HTTPRes \<Rightarrow> world \<Rightarrow> unit result \<times> world" where
  "writeHTTPResp k resp w =
     (if lengthR (body resp) < 0 then (Throw (Error ''TODO: chunked encoding''), w)
      else
        (let resp1 = resp\<lparr>headersR := headersR resp
                           @ [''Content-Length: '' @ numToString (lengthR (body resp))]\<rparr>
         in bind (soWrite (encodeHTTPResp resp1) w) (\<lambda>u w1. writeBody k (body resp1) w1)))"

text \<open>The loop \<open>while ((await reqBody.read()).length > 0) {}\<close> of \<open>serverClient\<close>.\<close>

fun drainBody :: "nat \<Rightarrow> BodyReader \<Rightarrow> world \<Rightarrow> unit result \<times> world" where
  "drainBody 0 r w = (OutOfFuel, w)"
| "drainBody (Suc k) r w =
     bind (read r w) (\<lambda>d w1.
       if length d > 0 then drainBody k r w1 else (Return (), w1))"

text \<open>
  The loop of \<open>serverClient(conn)\<close>, server lines 468-502, with a bound on its rounds.
  \<open>cutMessage\<close> is the one of http-parser.ts.
\<close>

fun serverLoop :: "nat \<Rightarrow> world \<Rightarrow> unit result \<times> world" where
  "serverLoop 0 w = (OutOfFuel, w)"
| "serverLoop (Suc k) w =
     (case cutMessage (buf w) of
        Inl e \<Rightarrow> (Throw e, w)
      | Inr (None, b) \<Rightarrow>
          bind (soRead (w\<lparr>buf := b\<rparr>)) (\<lambda>d w1.
            let w2 = w1\<lparr>buf := bufpush (buf w1) d\<rparr>
            in if length d = 0 \<and> ended (conn w2) then (Return (), w2)
               else if length d = 0 \<and> err (conn w2) \<noteq> None
               then (Throw (HTTPError 400 ''Unexpected EOF.''), w2)
               else serverLoop k w2)
      | Inr (Some msg, b) \<Rightarrow>
          bind (readerFromReq msg (w\<lparr>buf := b\<rparr>)) (\<lambda>reqBody w1.
          bind (handleReq msg reqBody w1) (\<lambda>resp w2.
          bind (writeHTTPResp k resp w2) (\<lambda>u w3.
            if version msg = ''1.0'' then (Return (), w3)
            else bind (drainBody k reqBody w3) (\<lambda>u w4. serverLoop k w4)))))"

definition serverClient :: "nat \<Rightarrow> TCPConn \<Rightarrow> unit result \<times> world" where
  "serverClient k c =
     serverLoop k \<lparr> conn = c, buf = \<lparr> data = [], lengthD = 0 \<rparr>, readers = [] \<rparr>"

text \<open>A fresh connection on which the socket will emit the given events.\<close>

definition soInit :: "event list \<Rightarrow> TCPConn" where
  "soInit es = \<lparr> events = es, err = None, ended = False, written = [] \<rparr>"

section \<open>Notions of the specification\<close>



text \<open>
  A reader is exhausted when the memory reader has served its data (\<open>done\<close> is set) or
  the connection-bounded reader has \<open>remain = 0\<close>.
\<close>

fun exhausted :: "reader_state \<Rightarrow> bool" where
  "exhausted (MemoryReader d done) = done"
| "exhausted (ConnLengthReader remain) = (remain = 0)"

text \<open>\<open>n\<close> successive calls of \<open>await r.read()\<close>, with the chunks they return.\<close>

fun readTimes :: "nat \<Rightarrow> BodyReader \<Rightarrow> world \<Rightarrow> bytes list result \<times> world" where
  "readTimes 0 r w = (Return [], w)"
| "readTimes (Suc n) r w =
     bind (read r w) (\<lambda>d w1.
       bind (readTimes n r w1) (\<lambda>ds w2. (Return (d # ds), w2)))"

section \<open>The receive buffer: consuming a prefix\<close>

lemma rel_index_nonneg: "0 \<le> i \<Longrightarrow> rel_index n i = min (nat i) n"
  by (auto simp: rel_index_def)

lemma rel_index_le: "rel_index n i \<le> n"
  by (auto simp: rel_index_def)

lemma subarray_prefix: "0 \<le> e \<Longrightarrow> subarray d 0 e = take (nat e) d"
  by (simp add: subarray_def rel_index_nonneg Let_def min_def)

lemma valid_take: "0 \<le> lengthD b \<Longrightarrow> valid b = take (nat (lengthD b)) (data b)"
  by (simp add: valid_def subarray_prefix)

lemma length_valid: "wf_buf b \<Longrightarrow> int (length (valid b)) = lengthD b"
  by (auto simp: wf_buf_def valid_take)

lemma length_copyWithin: "length (copyWithin d t s e) = length d"
proof -
  have a: "rel_index (length d) t \<le> length d" "rel_index (length d) s \<le> length d"
    "rel_index (length d) e \<le> length d"
    by (rule rel_index_le)+
  show ?thesis
    using a unfolding copyWithin_def Let_def
    by (simp add: min_def) linarith
qed


lemma copyWithin_shift:
  assumes "0 \<le> n" "n \<le> l" "l \<le> int (length d)"
  shows "copyWithin d 0 n l = take (nat (l - n)) (drop (nat n) d) @ drop (nat (l - n)) d"
proof -
  have t: "rel_index (length d) 0 = 0" by (simp add: rel_index_def)
  have f: "rel_index (length d) n = nat n" using assms by (simp add: rel_index_def)
  have e: "rel_index (length d) l = nat l" using assms by (simp add: rel_index_def)
  have c: "min (int (nat l) - int (nat n)) (int (length d) - int 0) = l - n"
    using assms by simp
  show ?thesis
  proof (cases "n = l")
    case True
    then show ?thesis unfolding copyWithin_def Let_def t f e c by simp
  next
    case False
    then have "0 < l - n" using assms by simp
    then show ?thesis unfolding copyWithin_def Let_def t f e c by simp
  qed
qed

lemma copyWithin_nothing:
  assumes "0 \<le> l" "l < n" "l \<le> int (length d)"
  shows "copyWithin d 0 n l = d"
proof -
  have e: "rel_index (length d) l = nat l" using assms by (simp add: rel_index_def)
  have f: "nat l \<le> rel_index (length d) n" using assms by (simp add: rel_index_def)
  have "\<not> 0 < min (int (rel_index (length d) l) - int (rel_index (length d) n))
                   (int (length d) - int (rel_index (length d) 0))"
    using e f assms by (simp add: min_def) linarith
  then show ?thesis unfolding copyWithin_def Let_def by (simp only: if_False)
qed

text \<open>
  Claim C8, as the code has it. On a buffer whose logical length lies within its bytes,
  \<open>bufPop\<close> with \<open>0 \<le> n \<le> length\<close> discards exactly the first \<open>n\<close> valid bytes: the
  remaining valid bytes are moved to offset 0, the logical length drops by \<open>n\<close> and the
  invariant is kept. With \<open>n\<close> above the logical length nothing is thrown: the call
  completes, leaves the bytes as they are and makes the logical length negative.
\<close>

theorem bufPop_consume:
  assumes "wf_buf b" and "0 \<le> n"
  shows "if n \<le> lengthD b
         then valid (bufPop b n) = drop (nat n) (valid b)
            \<and> data (bufPop b n)
                = take (nat (lengthD b - n)) (drop (nat n) (data b))
                  @ drop (nat (lengthD b - n)) (data b)
            \<and> lengthD (bufPop b n) = lengthD b - n
            \<and> wf_buf (bufPop b n)
         else bufPop b n = \<lparr> data = data b, lengthD = lengthD b - n \<rparr>
            \<and> lengthD (bufPop b n) < 0"
proof (cases "n \<le> lengthD b")
  case True
  have d: "data (bufPop b n)
             = take (nat (lengthD b - n)) (drop (nat n) (data b))
               @ drop (nat (lengthD b - n)) (data b)"
    using assms True by (simp add: bufPop_def copyWithin_shift wf_buf_def)
  have l: "lengthD (bufPop b n) = lengthD b - n" by (simp add: bufPop_def)
  have w: "wf_buf (bufPop b n)"
    using assms True by (simp add: wf_buf_def bufPop_def length_copyWithin)
  have k: "nat (lengthD b - n) \<le> length (data b) - nat n"
    using assms True by (simp add: wf_buf_def)
  have "valid (bufPop b n) = take (nat (lengthD b - n)) (data (bufPop b n))"
    using True l by (simp add: valid_take)
  also have "\<dots> = take (nat (lengthD b - n)) (drop (nat n) (data b))"
    unfolding d using k by simp
  also have "\<dots> = drop (nat n) (take (nat (lengthD b)) (data b))"
    using assms True by (simp add: drop_take nat_diff_distrib')
  also have "\<dots> = drop (nat n) (valid b)"
    using assms by (simp add: valid_take wf_buf_def)
  finally show ?thesis using True d l w by simp
next
  case False
  then show ?thesis using assms
    by (simp add: bufPop_def copyWithin_nothing wf_buf_def)
qed

text \<open>Claim C8: the theorem at a buffer of six bytes, five of them valid.\<close>

theorem bufPop_consume_witness:
  "valid (bufPop \<lparr> data = ''abcdef'', lengthD = 5 \<rparr> 2) = ''cde''
   \<and> bufPop \<lparr> data = ''abcdef'', lengthD = 5 \<rparr> 2 = \<lparr> data = ''cdedef'', lengthD = 3 \<rparr>
   \<and> bufPop \<lparr> data = ''abcdef'', lengthD = 5 \<rparr> 6 = \<lparr> data = ''abcdef'', lengthD = - 1 \<rparr>"
proof -
  have w: "wf_buf \<lparr> data = ''abcdef'', lengthD = 5 \<rparr>" by (simp add: wf_buf_def)
  have v: "valid \<lparr> data = ''abcdef'', lengthD = 5 \<rparr> = ''abcde''"
    by (simp add: valid_def subarray_def rel_index_def)
  show ?thesis
    using bufPop_consume [OF w, of 2] bufPop_consume [OF w, of 6] v
    by simp
qed

text \<open>
  Claim C8 as stated fails: popping three bytes from a buffer that holds two completes
  and leaves the logical length at \<open>-1\<close>.
\<close>

theorem bufPop_beyond_length_counterexample:
  "lengthD \<lparr> data = ''ab'', lengthD = 2 \<rparr> < 3
   \<and> bufPop \<lparr> data = ''ab'', lengthD = 2 \<rparr> 3 = \<lparr> data = ''ab'', lengthD = - 1 \<rparr>"
  by (simp add: bufPop_def copyWithin_def rel_index_def)


section \<open>The message boundary: header blocks without a terminator\<close>

lemma startsWith_iff: "startsWith s p \<longleftrightarrow> (\<exists>zs. s = p @ zs)"
  unfolding startsWith_def by (metis append_eq_conv_conj append_take_drop_id)

lemma occurs_Cons:
  "(\<exists>pre post. x # xs = pre @ p @ post)
     \<longleftrightarrow> startsWith (x # xs) p \<or> (\<exists>pre post. xs = pre @ p @ post)"
proof
  assume "\<exists>pre post. x # xs = pre @ p @ post"
  then obtain pre post where e: "x # xs = pre @ p @ post" by blast
  show "startsWith (x # xs) p \<or> (\<exists>pre post. xs = pre @ p @ post)"
  proof (cases pre)
    case Nil
    then show ?thesis using e by (auto simp: startsWith_iff)
  next
    case (Cons y ys)
    then have "xs = ys @ p @ post" using e by simp
    then show ?thesis by blast
  qed
next
  assume "startsWith (x # xs) p \<or> (\<exists>pre post. xs = pre @ p @ post)"
  then show "\<exists>pre post. x # xs = pre @ p @ post"
  proof
    assume "startsWith (x # xs) p"
    then obtain zs where "x # xs = [] @ p @ zs" by (auto simp: startsWith_iff)
    then show ?thesis by blast
  next
    assume "\<exists>pre post. xs = pre @ p @ post"
    then obtain pre post where "xs = pre @ p @ post" by blast
    then have "x # xs = (x # pre) @ p @ post" by simp
    then show ?thesis by blast
  qed
qed

lemma indexOf_from_absent:
  "indexOf_from s p i = - 1 \<longleftrightarrow> \<not> (\<exists>pre post. s = pre @ p @ post)"
proof (induction s arbitrary: i)
  case Nil
  then show ?case by auto
next
  case (Cons x xs)
  show ?case
  proof (cases "startsWith (x # xs) p")
    case True
    then show ?thesis using occurs_Cons [of x xs p] by simp
  next
    case False
    then show ?thesis using occurs_Cons [of x xs p] Cons.IH [of "Suc i"] by simp
  qed
qed

lemma indexOf_from_range: "indexOf_from s p i = - 1 \<or> int i \<le> indexOf_from s p i"
  by (induction s arbitrary: i) (auto, smt (verit) of_nat_Suc)

lemma indexOf_absent: "indexOf s p < 0 \<longleftrightarrow> \<not> (\<exists>pre post. s = pre @ p @ post)"
  using indexOf_from_absent [of s p 0] indexOf_from_range [of s p 0]
  by (auto simp: indexOf_def)

lemma no_CR_no_terminator: "CR \<notin> set s \<Longrightarrow> indexOf s CRLFCRLF = - 1"
proof -
  assume a: "CR \<notin> set s"
  have "\<not> (\<exists>pre post. s = pre @ CRLFCRLF @ post)"
  proof
    assume "\<exists>pre post. s = pre @ CRLFCRLF @ post"
    then obtain pre post where "s = pre @ CRLFCRLF @ post" by blast
    then have "CR \<in> set s" by (simp add: CRLFCRLF_def)
    then show False using a by simp
  qed
  then show ?thesis using indexOf_from_absent [of s CRLFCRLF 0] by (simp add: indexOf_def)
qed

text \<open>
  Claim C3, as the code has it. On a buffer whose logical length lies within its bytes
  and whose valid region does not contain CR LF CR LF, \<open>cutMessage\<close> fails with the 413
  condition when the valid region is longer than 8192 bytes (8193 or more), and returns
  \<open>null\<close>, leaving the buffer as it is, when the valid region has 8192 bytes or fewer.
\<close>

theorem cutMessage_no_terminator:
  assumes "wf_buf b" and "\<not> (\<exists>pre post. valid b = pre @ CRLFCRLF @ post)"
  shows "cutMessage b =
           (if length (valid b) > 8192
            then Inl (HTTPError 413 ''Request Entity Too Large'')
            else Inr (None, b))"
proof -
  have i: "indexOf (subarray (data b) 0 (lengthD b)) CRLFCRLF < 0"
    using assms(2) indexOf_absent [of "valid b" CRLFCRLF] by (simp add: valid_def)
  have l: "int (length (valid b)) = lengthD b" using assms(1) by (rule length_valid)
  have "(lengthD b > kMaxHeaderSize) = (length (valid b) > 8192)"
    unfolding kMaxHeaderSize_def l [symmetric] by simp
  then show ?thesis using i by (simp add: cutMessage_def Let_def)
qed

text \<open>
  Claim C3: the theorem at a buffer of five bytes and at one of 8193 bytes.
\<close>

theorem cutMessage_no_terminator_witness:
  "cutMessage \<lparr> data = ''GET /'', lengthD = 5 \<rparr> = Inr (None, \<lparr> data = ''GET /'', lengthD = 5 \<rparr>)
   \<and> cutMessage \<lparr> data = replicate 8193 (CHR ''a''), lengthD = 8193 \<rparr>
       = Inl (HTTPError 413 ''Request Entity Too Large'')"
proof -
  let ?b = "\<lparr> data = ''GET /'', lengthD = 5 \<rparr>"
  let ?c = "\<lparr> data = replicate 8193 (CHR ''a''), lengthD = 8193 \<rparr>"
  have wb: "wf_buf ?b" and wc: "wf_buf ?c" by (simp_all add: wf_buf_def)
  have vb: "valid ?b = ''GET /''" by (simp add: valid_take)
  have vc: "valid ?c = replicate 8193 (CHR ''a'')" by (simp add: valid_take)
  have nb: "\<not> (\<exists>pre post. valid ?b = pre @ CRLFCRLF @ post)"
    using indexOf_absent [of "valid ?b" CRLFCRLF] no_CR_no_terminator [of "valid ?b"]
    unfolding vb by simp
  have nc: "\<not> (\<exists>pre post. valid ?c = pre @ CRLFCRLF @ post)"
    using indexOf_absent [of "valid ?c" CRLFCRLF] no_CR_no_terminator [of "valid ?c"]
    unfolding vc by simp
  show ?thesis
    using cutMessage_no_terminator [OF wb nb] cutMessage_no_terminator [OF wc nc]
    unfolding vb vc by simp
qed

text \<open>
  Claim C3 as stated fails at the boundary: a valid region of exactly 8192 bytes without
  the terminator is not rejected, \<open>cutMessage\<close> returns \<open>null\<close>.
\<close>

theorem cutMessage_8192_counterexample:
  "length (valid \<lparr> data = replicate 8192 (CHR ''a''), lengthD = 8192 \<rparr>) = 8192
   \<and> indexOf (valid \<lparr> data = replicate 8192 (CHR ''a''), lengthD = 8192 \<rparr>) CRLFCRLF = - 1
   \<and> cutMessage \<lparr> data = replicate 8192 (CHR ''a''), lengthD = 8192 \<rparr>
       = Inr (None, \<lparr> data = replicate 8192 (CHR ''a''), lengthD = 8192 \<rparr>)"
proof -
  let ?b = "\<lparr> data = replicate 8192 (CHR ''a''), lengthD = 8192 \<rparr>"
  have v: "valid ?b = replicate 8192 (CHR ''a'')" by (simp add: valid_take)
  have i: "indexOf (replicate 8192 (CHR ''a'')) CRLFCRLF = - 1"
    by (rule no_CR_no_terminator) simp
  have "cutMessage ?b = Inr (None, ?b)"
    using i by (simp add: cutMessage_def Let_def kMaxHeaderSize_def subarray_prefix)
  then show ?thesis using i unfolding v by simp
qed

section \<open>The request line\<close>














lemma ascii_char_7bit: "(of_char c :: nat) < 128 \<Longrightarrow> ascii_char c = c"
  by (cases c) (auto simp: not_less [symmetric] split: if_splits)

lemma toString_ascii_7bit:
  "list_all (\<lambda>c. (of_char c :: nat) < 128) line \<Longrightarrow> toString_ascii line = line"
  by (induction line) (simp_all add: toString_ascii_def ascii_char_7bit)


lemma ascii_plain [simp]:
  "toString_ascii ''GET / HTTP/1.1 x'' = ''GET / HTTP/1.1 x''"
  "toString_ascii ''FOO / HTTP/1.1'' = ''FOO / HTTP/1.1''"
  "toString_ascii ''GET x HTTP/1.1'' = ''GET x HTTP/1.1''"
  "toString_ascii ''GET / HTTP/x'' = ''GET / HTTP/x''"
  "toString_ascii ''GET /hello HTTP/1.1'' = ''GET /hello HTTP/1.1''"
  by (simp_all add: toString_ascii_def)



section \<open>Body readers after their end\<close>

lemma read_state_exhausted: "exhausted st \<Longrightarrow> read_state st w = (Return ([], st), w)"
  by (cases st) (simp_all add: read_state_def read_memory_def read_connLength_def)

lemma read_memory_serves_once:
  "read_state (MemoryReader d False) w = (Return (d, MemoryReader d True), w)"
  by (simp add: read_state_def read_memory_def)

lemma read_exhausted:
  assumes "ref r < length (readers w)" and "exhausted (readers w ! ref r)"
  shows "read r w = (Return [], w)"
  using assms by (simp add: read_def read_state_exhausted bind_def)

text \<open>
  Claim C10. Once a body reader is exhausted (the memory reader has served its data, or
  the connection-bounded reader has \<open>remain = 0\<close>), any number \<open>n\<close> of further reads
  returns \<open>n\<close> empty results and leaves the reader, the shared buffer and the connection
  exactly as they were.
\<close>

theorem read_after_exhaustion:
  assumes "ref r < length (readers w)" and "exhausted (readers w ! ref r)"
  shows "readTimes n r w = (Return (replicate n []), w)"
proof (induction n)
  case 0
  show ?case by simp
next
  case (Suc n)
  show ?case using read_exhausted [OF assms] Suc.IH by (simp add: bind_def)
qed

text \<open>
  Claim C10: the theorem at three reads of a served memory reader and of a
  connection-bounded reader with nothing remaining.
\<close>

theorem read_after_exhaustion_witness:
  "readTimes 3 \<lparr> lengthR = 2, ref = 0 \<rparr>
     \<lparr> conn = soInit [Data ''xy''], buf = \<lparr> data = ''ab'', lengthD = 2 \<rparr>,
       readers = [MemoryReader ''hi'' True, ConnLengthReader 0] \<rparr>
   = (Return [[], [], []],
      \<lparr> conn = soInit [Data ''xy''], buf = \<lparr> data = ''ab'', lengthD = 2 \<rparr>,
        readers = [MemoryReader ''hi'' True, ConnLengthReader 0] \<rparr>)
   \<and> readTimes 3 \<lparr> lengthR = 2, ref = 1 \<rparr>
     \<lparr> conn = soInit [Data ''xy''], buf = \<lparr> data = ''ab'', lengthD = 2 \<rparr>,
       readers = [MemoryReader ''hi'' True, ConnLengthReader 0] \<rparr>
   = (Return [[], [], []],
      \<lparr> conn = soInit [Data ''xy''], buf = \<lparr> data = ''ab'', lengthD = 2 \<rparr>,
        readers = [MemoryReader ''hi'' True, ConnLengthReader 0] \<rparr>)"
  using read_after_exhaustion
          [of "\<lparr> lengthR = 2, ref = 0 \<rparr>"
              "\<lparr> conn = soInit [Data ''xy''], buf = \<lparr> data = ''ab'', lengthD = 2 \<rparr>,
                 readers = [MemoryReader ''hi'' True, ConnLengthReader 0] \<rparr>" 3]
        read_after_exhaustion
          [of "\<lparr> lengthR = 2, ref = 1 \<rparr>"
              "\<lparr> conn = soInit [Data ''xy''], buf = \<lparr> data = ''ab'', lengthD = 2 \<rparr>,
                 readers = [MemoryReader ''hi'' True, ConnLengthReader 0] \<rparr>" 3]
  by (simp add: numeral_3_eq_3)

section \<open>Choosing the body reader\<close>

text \<open>
  Claim C6, as the code has it. For a request with method GET or HEAD: a length header
  that does not parse fails with 400 \<open>bad Content-Length.\<close> before the method is looked
  at; with no length header, or one that parses to a number \<open>n \<ge> 0\<close>, a nonzero \<open>n\<close> or a
  chunked marker fails with 400 \<open>HTTP body not allowed.\<close>, and otherwise the body length is
  forced to 0 and a reader of length 0 is returned. For every other method a length header
  that parses to 0 is accepted and gives a reader of length 0. (Nothing is said here about
  a length header that parses to a negative number.)
\<close>

theorem readerFromReq_body_rules:
  "(methodH req = ''GET'' \<or> methodH req = ''HEAD'' \<longrightarrow>
      (case fieldGet (headers req) ''Content-Length'' of
         None \<Rightarrow>
           readerFromReq req w =
             (if chunkedOf req then (Throw (HTTPError 400 ''HTTP body not allowed.''), w)
              else (Return \<lparr> lengthR = 0, ref = length (readers w) \<rparr>,
                    w\<lparr>readers := readers w @ [ConnLengthReader 0]\<rparr>))
       | Some v \<Rightarrow>
           (case parseDec v of
              None \<Rightarrow> readerFromReq req w = (Throw (HTTPError 400 ''bad Content-Length.''), w)
            | Some n \<Rightarrow>
                0 \<le> n \<longrightarrow>
                readerFromReq req w =
                  (if n \<noteq> 0 \<or> chunkedOf req
                   then (Throw (HTTPError 400 ''HTTP body not allowed.''), w)
                   else (Return \<lparr> lengthR = 0, ref = length (readers w) \<rparr>,
                         w\<lparr>readers := readers w @ [ConnLengthReader 0]\<rparr>)))))
   \<and> (methodH req \<noteq> ''GET'' \<and> methodH req \<noteq> ''HEAD'' \<and>
      fieldGet (headers req) ''Content-Length'' = Some v \<and> parseDec v = Some 0 \<longrightarrow>
      readerFromReq req w =
        (Return \<lparr> lengthR = 0, ref = length (readers w) \<rparr>,
         w\<lparr>readers := readers w @ [ConnLengthReader 0]\<rparr>))"
  by (auto simp: readerFromReq_def readerFromConnLength_def toString_latin1_def Let_def
           split: option.splits)


lemma contentLength_examples:
  "fieldGet [''Content-Length: 0''] ''Content-Length'' = Some ''0''"
  "fieldGet [''Content-Length: 5''] ''Content-Length'' = Some ''5''"
  "fieldGet [''Content-Length: abc''] ''Content-Length'' = Some ''abc''"
  "fieldGet [''Content-Length: -1''] ''Content-Length'' = Some ''-1''"
  "fieldGet [''Content-Length: 0''] ''Transfer-Encoding'' = None"
  "fieldGet [''Content-Length: 5''] ''Transfer-Encoding'' = None"
  "fieldGet [''Content-Length: abc''] ''Transfer-Encoding'' = None"
  "fieldGet [''Content-Length: -1''] ''Transfer-Encoding'' = None"
  by code_simp+

lemma parseDec_examples:
  "parseDec ''0'' = Some 0"
  "parseDec ''5'' = Some 5"
  "parseDec ''abc'' = None"
  "parseDec ''-1'' = Some (- 1)"
  "parseDec ''12abc'' = Some 12"
  by code_simp+

text \<open>
  Claim C6: the theorem at GET with \<open>Content-Length: 0\<close>, HEAD with \<open>Content-Length: 5\<close> and
  POST with \<open>Content-Length: 0\<close>.
\<close>

theorem readerFromReq_body_rules_witness:
  "readerFromReq
      \<lparr> methodH = ''GET'', uri = ''/'', version = ''HTTP/1.1'', headers = [''Content-Length: 0''] \<rparr>
      \<lparr> conn = soInit [], buf = \<lparr> data = [], lengthD = 0 \<rparr>, readers = [] \<rparr>
     = (Return \<lparr> lengthR = 0, ref = 0 \<rparr>,
        \<lparr> conn = soInit [], buf = \<lparr> data = [], lengthD = 0 \<rparr>, readers = [ConnLengthReader 0] \<rparr>)
   \<and> readerFromReq
      \<lparr> methodH = ''HEAD'', uri = ''/'', version = ''HTTP/1.1'', headers = [''Content-Length: 5''] \<rparr>
      \<lparr> conn = soInit [], buf = \<lparr> data = [], lengthD = 0 \<rparr>, readers = [] \<rparr>
     = (Throw (HTTPError 400 ''HTTP body not allowed.''),
        \<lparr> conn = soInit [], buf = \<lparr> data = [], lengthD = 0 \<rparr>, readers = [] \<rparr>)
   \<and> readerFromReq
      \<lparr> methodH = ''POST'', uri = ''/'', version = ''HTTP/1.1'', headers = [''Content-Length: 0''] \<rparr>
      \<lparr> conn = soInit [], buf = \<lparr> data = [], lengthD = 0 \<rparr>, readers = [] \<rparr>
     = (Return \<lparr> lengthR = 0, ref = 0 \<rparr>,
        \<lparr> conn = soInit [], buf = \<lparr> data = [], lengthD = 0 \<rparr>, readers = [ConnLengthReader 0] \<rparr>)"
  using readerFromReq_body_rules
          [of "\<lparr> methodH = ''GET'', uri = ''/'', version = ''HTTP/1.1'',
                 headers = [''Content-Length: 0''] \<rparr>"
              "\<lparr> conn = soInit [], buf = \<lparr> data = [], lengthD = 0 \<rparr>, readers = [] \<rparr>"]
        readerFromReq_body_rules
          [of "\<lparr> methodH = ''HEAD'', uri = ''/'', version = ''HTTP/1.1'',
                 headers = [''Content-Length: 5''] \<rparr>"
              "\<lparr> conn = soInit [], buf = \<lparr> data = [], lengthD = 0 \<rparr>, readers = [] \<rparr>"]
        readerFromReq_body_rules
          [of "\<lparr> methodH = ''POST'', uri = ''/'', version = ''HTTP/1.1'',
                 headers = [''Content-Length: 0''] \<rparr>"
              "\<lparr> conn = soInit [], buf = \<lparr> data = [], lengthD = 0 \<rparr>, readers = [] \<rparr>"
              "''0''"]
  by (simp add: contentLength_examples parseDec_examples chunkedOf_def del: fieldGet.simps)

text \<open>
  Claim C6 as stated fails: a GET request with \<open>Content-Length: abc\<close> and no chunked
  marker gets neither the \<open>body not allowed\<close> failure nor a reader of length 0; the length
  is validated first and the call fails with 400 \<open>bad Content-Length.\<close>
\<close>

theorem readerFromReq_unparsable_length_counterexample:
  "readerFromReq
      \<lparr> methodH = ''GET'', uri = ''/'', version = ''HTTP/1.1'', headers = [''Content-Length: abc''] \<rparr>
      \<lparr> conn = soInit [], buf = \<lparr> data = [], lengthD = 0 \<rparr>, readers = [] \<rparr>
     = (Throw (HTTPError 400 ''bad Content-Length.''),
        \<lparr> conn = soInit [], buf = \<lparr> data = [], lengthD = 0 \<rparr>, readers = [] \<rparr>)"
  by code_simp

lemma readerFromReq_unparsable:
  assumes "fieldGet (headers req) ''Content-Length'' = Some v" and "parseDec v = None"
  shows "readerFromReq req w = (Throw (HTTPError 400 ''bad Content-Length.''), w)"
  using assms by (simp add: readerFromReq_def toString_latin1_def)

lemma readerFromReq_negative:
  assumes "methodH req \<noteq> ''GET''" "methodH req \<noteq> ''HEAD''"
    and "fieldGet (headers req) ''Content-Length'' = Some v"
    and "parseDec v = Some n" and "n < 0"
  shows "readerFromReq req w =
           (if chunkedOf req then (Throw (HTTPError 501 ''TODO: chunked encoding''), w)
            else (Throw (HTTPError 501 ''TODO: read until EOF''), w))"
  using assms by (simp add: readerFromReq_def toString_latin1_def Let_def)

text \<open>
  Claim C2 at \<open>Content-Length: -1\<close>. The header block parses, \<open>parseInt\<close> gives \<open>-1\<close>,
  which is not \<open>NaN\<close> and coincides with the marker for "no length known": a POST request
  falls through to 501 \<open>TODO: read until EOF\<close>, and a GET request gets a reader of length
  0. Neither fails with 400 \<open>bad Content-Length.\<close>
\<close>

theorem readerFromReq_minus_one:
  "parseHTTPReq (''POST /echo HTTP/1.1'' @ CRLF @ ''Content-Length: -1'' @ CRLFCRLF)
     = Inr \<lparr> methodH = ''POST'', uri = ''/echo'', version = ''HTTP/1.1'',
             headers = [''Content-Length: -1''] \<rparr>
   \<and> readerFromReq
      \<lparr> methodH = ''POST'', uri = ''/echo'', version = ''HTTP/1.1'',
        headers = [''Content-Length: -1''] \<rparr>
      \<lparr> conn = soInit [], buf = \<lparr> data = [], lengthD = 0 \<rparr>, readers = [] \<rparr>
     = (Throw (HTTPError 501 ''TODO: read until EOF''),
        \<lparr> conn = soInit [], buf = \<lparr> data = [], lengthD = 0 \<rparr>, readers = [] \<rparr>)
   \<and> readerFromReq
      \<lparr> methodH = ''GET'', uri = ''/echo'', version = ''HTTP/1.1'',
        headers = [''Content-Length: -1''] \<rparr>
      \<lparr> conn = soInit [], buf = \<lparr> data = [], lengthD = 0 \<rparr>, readers = [] \<rparr>
     = (Return \<lparr> lengthR = 0, ref = 0 \<rparr>,
        \<lparr> conn = soInit [], buf = \<lparr> data = [], lengthD = 0 \<rparr>, readers = [ConnLengthReader 0] \<rparr>)"
  by code_simp

section \<open>The connection engine at concrete inputs\<close>

lemma matchVersion_prefix: "matchVersion v \<Longrightarrow> startsWith v ''HTTP/''"
  by (simp add: matchVersion_def)

lemma parseRequestLine_keeps_prefix:
  "parseRequestLine line = Inr (m, u, v) \<Longrightarrow> startsWith v ''HTTP/'' \<and> v \<noteq> ''1.0''"
  by (auto simp: parseRequestLine_def Let_def startsWith_def matchVersion_def
           split: if_splits)

lemma parseHTTPReq_version_never_10:
  "parseHTTPReq d = Inr req \<Longrightarrow> version req \<noteq> ''1.0''"
  by (auto simp: parseHTTPReq_def split: list.splits sum.splits)
     (metis parseRequestLine_keeps_prefix)

text \<open>
  Claim C1 at the specification's scenario 3, followed by a second request in the same
  chunk. The parsed request stores the version token as it stands on the request line,
  \<open>HTTP/1.0\<close>, which is never equal to \<open>1.0\<close> (lemma \<open>parseHTTPReq_version_never_10\<close>), so
  the test \<open>msg.version === '1.0'\<close> of \<open>serverClient\<close> is false: the engine does not close
  after the first response, it parses the buffered second request and answers it too, and
  returns only when the socket ends.
\<close>

theorem serverClient_http10_keeps_going:
  "parseHTTPReq (''POST /echo HTTP/1.0'' @ CRLF @ ''Content-Length: 3'' @ CRLFCRLF)
     = Inr \<lparr> methodH = ''POST'', uri = ''/echo'', version = ''HTTP/1.0'',
             headers = [''Content-Length: 3''] \<rparr>
   \<and> fst (serverClient 10
            (soInit [Data (''POST /echo HTTP/1.0'' @ CRLF @ ''Content-Length: 3'' @ CRLFCRLF
                           @ ''abc'' @ ''GET / HTTP/1.0'' @ CRLFCRLF), End]))
     = Return ()
   \<and> written (conn (snd (serverClient 10
            (soInit [Data (''POST /echo HTTP/1.0'' @ CRLF @ ''Content-Length: 3'' @ CRLFCRLF
                           @ ''abc'' @ ''GET / HTTP/1.0'' @ CRLFCRLF), End]))))
     = [''HTTP/1.1 200 OK'' @ CRLF @ ''Server: my_first_http_server'' @ CRLF
          @ ''Content-Length: 3'' @ CRLF,
        ''abc'',
        ''HTTP/1.1 200 OK'' @ CRLF @ ''Server: my_first_http_server'' @ CRLF
          @ ''Content-Length: 13'' @ CRLF,
        ''hello world.'' @ [LF]]"
  by code_simp

text \<open>
  Claim C4 at two well-formed header blocks. \<open>splitLines\<close> gives the empty line before the
  terminator as the last line; the parser of http-parser.ts stops there and returns the
  request, the compiled parser in dist validates that empty line as a header and fails
  with status 400.
\<close>

theorem parseHTTPReq_dist_rejects_blank_line:
  "parseHTTPReq (''GET /hello HTTP/1.1'' @ CRLFCRLF)
     = Inr \<lparr> methodH = ''GET'', uri = ''/hello'', version = ''HTTP/1.1'', headers = [] \<rparr>
   \<and> parseHTTPReq_dist (''GET /hello HTTP/1.1'' @ CRLFCRLF)
     = Inl (HTTPError 400 ''Bad Request: Invalid header format - '')
   \<and> parseHTTPReq (''POST /echo HTTP/1.1'' @ CRLF @ ''Content-Length: 5'' @ CRLFCRLF)
     = Inr \<lparr> methodH = ''POST'', uri = ''/echo'', version = ''HTTP/1.1'',
             headers = [''Content-Length: 5''] \<rparr>
   \<and> parseHTTPReq_dist (''POST /echo HTTP/1.1'' @ CRLF @ ''Content-Length: 5'' @ CRLFCRLF)
     = Inl (HTTPError 400 ''Bad Request: Invalid header format - '')"
  by code_simp

text \<open>
  Claim C7 at a state the engine reaches when the header block and the body arrive in
  separate chunks. After \<open>cutMessage\<close> the buffer is empty (logical length 0) but still
  holds the 43 consumed bytes. The read, with \<open>remain = 10\<close>, performs one transport read
  that delivers the 3 bytes \<open>abc\<close>, and \<open>bufpush\<close> sets the logical length to the physical
  size, 46: the 43 stale bytes become valid again in front of the 3 new ones. The read
  returns 10 bytes, \<open>POST /echo\<close>, the start of the old request line, although only 3
  bytes are buffered for the body, and the connection sends them as the echoed body.
\<close>

theorem read_connLength_returns_stale_bytes:
  "cutMessage (bufpush \<lparr> data = [], lengthD = 0 \<rparr>
                 (''POST /echo HTTP/1.1'' @ CRLF @ ''Content-Length: 10'' @ CRLFCRLF))
     = Inr (Some \<lparr> methodH = ''POST'', uri = ''/echo'', version = ''HTTP/1.1'',
                    headers = [''Content-Length: 10''] \<rparr>,
            \<lparr> data = ''POST /echo HTTP/1.1'' @ CRLF @ ''Content-Length: 10'' @ CRLFCRLF,
              lengthD = 0 \<rparr>)
   \<and> fst (read_connLength 10
       \<lparr> conn = soInit [Data ''abc''],
         buf = \<lparr> data = ''POST /echo HTTP/1.1'' @ CRLF @ ''Content-Length: 10'' @ CRLFCRLF,
                 lengthD = 0 \<rparr>,
         readers = [ConnLengthReader 10] \<rparr>)
     = Return (''POST /echo'', ConnLengthReader 0)
   \<and> written (conn (snd (serverClient 10
            (soInit [Data (''POST /echo HTTP/1.1'' @ CRLF @ ''Content-Length: 10'' @ CRLFCRLF),
                     Data ''abc'', End]))))
     = [''HTTP/1.1 200 OK'' @ CRLF @ ''Server: my_first_http_server'' @ CRLF
          @ ''Content-Length: 10'' @ CRLF,
        ''POST /echo'']"
  by code_simp

lemma join_trailing_empty:
  "join sep (x # xs @ [[]]) = x @ sep @ concat (map (\<lambda>y. y @ sep) xs)"
  by (induction xs arbitrary: x) simp_all

lemma encodeHTTPResp_shape:
  "encodeHTTPResp resp =
     ''HTTP/1.1 '' @ numToString (code resp) @ '' OK'' @ CRLF
     @ concat (map (\<lambda>h. h @ CRLF) (headersR resp))"
proof -
  have m: "map toString_latin1 (headersR resp) = headersR resp"
    by (simp add: map_idI toString_latin1_def)
  show ?thesis
    unfolding encodeHTTPResp_def m
    using join_trailing_empty
            [of CRLF "''HTTP/1.1 '' @ numToString (code resp) @ '' OK''" "headersR resp"]
    by simp
qed

text \<open>
  Claim C9 at the handler's default response. The length header and the body bytes are
  as claimed, but \<open>encodeHTTPResp\<close> joins the lines and one empty string with CR LF, which
  ends the header block with a single CR LF (lemma \<open>encodeHTTPResp_shape\<close>): the stream
  has no blank line between the last header and the body, and CR LF CR LF does not occur
  in it.
\<close>

theorem writeHTTPResp_no_blank_line:
  "fst (writeHTTPResp 5
          \<lparr> code = 200, headersR = [''Server: my_first_http_server''],
            body = \<lparr> lengthR = 13, ref = 0 \<rparr> \<rparr>
          \<lparr> conn = soInit [], buf = \<lparr> data = [], lengthD = 0 \<rparr>,
            readers = [MemoryReader (''hello world.'' @ [LF]) False] \<rparr>)
     = Return ()
   \<and> written (conn (snd (writeHTTPResp 5
          \<lparr> code = 200, headersR = [''Server: my_first_http_server''],
            body = \<lparr> lengthR = 13, ref = 0 \<rparr> \<rparr>
          \<lparr> conn = soInit [], buf = \<lparr> data = [], lengthD = 0 \<rparr>,
            readers = [MemoryReader (''hello world.'' @ [LF]) False] \<rparr>)))
     = [''HTTP/1.1 200 OK'' @ CRLF @ ''Server: my_first_http_server'' @ CRLF
          @ ''Content-Length: 13'' @ CRLF,
        ''hello world.'' @ [LF]]
   \<and> indexOf (concat (written (conn (snd (writeHTTPResp 5
          \<lparr> code = 200, headersR = [''Server: my_first_http_server''],
            body = \<lparr> lengthR = 13, ref = 0 \<rparr> \<rparr>
          \<lparr> conn = soInit [], buf = \<lparr> data = [], lengthD = 0 \<rparr>,
            readers = [MemoryReader (''hello world.'' @ [LF]) False] \<rparr>))))) CRLFCRLF
     = - 1"
  by code_simp

section \<open>The compiled parser against the source parser\<close>

text \<open>
  Where the two versions of \<open>parseHTTPReq\<close> agree and where they cannot. Whenever the
  compiled parser returns a request, the source parser returns the same one, and whenever
  the source parser fails, the compiled one fails with the same error. But a header block
  that ends with CR LF CR LF, which is all \<open>cutMessage\<close> ever passes on, always has the
  empty line as its last line, so the compiled parser returns a request for none of them.
  No request accepted by \<open>cutMessage\<close> has the version \<open>1.0\<close>.
\<close>

lemma cutMessage_version_never_10:
  "cutMessage b = Inr (Some msg, b') \<Longrightarrow> version msg \<noteq> ''1.0''"
  by (auto simp: cutMessage_def Let_def split: if_splits sum.splits
           dest: parseHTTPReq_version_never_10)

lemma validateHeader_empty: "validateHeader [] = False"
  by (simp add: validateHeader_def toString_ascii_def indexOf_def)

lemma collectHeaders_dist_success:
  "collectHeaders_dist ls hs = Inr r \<Longrightarrow> collectHeaders ls hs = Inr r"
proof (induction ls arbitrary: hs)
  case Nil
  then show ?case by simp
next
  case (Cons l ls)
  then show ?case by (cases "l = []") (auto simp: validateHeader_empty split: if_splits)
qed

lemma collectHeaders_failure:
  "collectHeaders ls hs = Inl e \<Longrightarrow> collectHeaders_dist ls hs = Inl e"
  by (induction ls arbitrary: hs) (auto split: if_splits)

lemma parseHTTPReq_dist_success:
  "parseHTTPReq_dist d = Inr r \<Longrightarrow> parseHTTPReq d = Inr r"
  by (auto simp: parseHTTPReq_dist_def parseHTTPReq_def split: list.splits sum.splits)
     (metis collectHeaders_dist_success sum.inject(2) sum.distinct(1))+

lemma parseHTTPReq_failure:
  "parseHTTPReq d = Inl e \<Longrightarrow> parseHTTPReq_dist d = Inl e"
  by (auto simp: parseHTTPReq_dist_def parseHTTPReq_def split: list.splits sum.splits)
     (metis collectHeaders_failure sum.inject(1) sum.distinct(1))+

lemma collectHeaders_dist_empty_line:
  "[] \<in> set ls \<Longrightarrow> \<exists>e. collectHeaders_dist ls hs = Inl e"
  by (induction ls arbitrary: hs) (auto simp: validateHeader_empty)


lemma splitLines_loop_unfold:
  "splitLines_loop d start i lines =
     (if i < length d then
        (if d ! i = LF then
           splitLines_loop d (i + 1) (i + 1)
             (lines @ [subarray d (int start)
                         (int (if 0 < i \<and> d ! (i - 1) = CR then i - 1 else i))])
         else splitLines_loop d start (i + 1) lines)
      else if start < length d then lines @ [subarray d (int start) (int (length d))]
      else lines)"
  by (rule splitLines_loop.simps)

lemma subarray_empty: "subarray d k k = []"
  by (simp add: subarray_def Let_def)

lemma splitLines_loop_terminator:
  assumes "n = length d"
  shows "splitLines_loop (d @ CRLFCRLF) (n + 2) (n + 2) lines = lines @ [[]]"
proof -
  let ?D = "d @ CRLFCRLF"
  have l: "length ?D = n + 4" using assms by (simp add: CRLFCRLF_def)
  have c: "?D ! (n + 2) = CR" and f: "?D ! (n + 3) = LF"
    using assms by (simp_all add: CRLFCRLF_def nth_append)
  have 1: "splitLines_loop ?D (n + 2) (n + 2) lines = splitLines_loop ?D (n + 2) (n + 3) lines"
    using l c by (subst splitLines_loop_unfold) (simp add: numeral_3_eq_3)
  have 2: "splitLines_loop ?D (n + 2) (n + 3) lines
             = splitLines_loop ?D (n + 4) (n + 4) (lines @ [[]])"
    using l c f by (subst splitLines_loop_unfold) (simp add: subarray_empty)
  have 3: "splitLines_loop ?D (n + 4) (n + 4) (lines @ [[]]) = lines @ [[]]"
    using l by (subst splitLines_loop_unfold) simp
  show ?thesis using 1 2 3 by simp
qed

lemma splitLines_loop_ends_empty:
  assumes "D = d @ CRLFCRLF" and "i \<le> length d + 1"
  shows "\<exists>ls. ls \<noteq> [] \<and> splitLines_loop D start i lines = lines @ ls @ [[]]"
  using assms
proof (induction D start i lines rule: splitLines_loop.induct)
  case (1 D start i lines)
  have len: "i < length D" using "1.prems" by (simp add: CRLFCRLF_def)
  have lf: "D ! (length d + 1) = LF" using "1.prems" by (simp add: CRLFCRLF_def nth_append)
  show ?case
  proof (cases "D ! i = LF")
    case True
    let ?l = "subarray D (int start) (int (if 0 < i \<and> D ! (i - 1) = CR then i - 1 else i))"
    have u: "splitLines_loop D start i lines
               = splitLines_loop D (i + 1) (i + 1) (lines @ [?l])"
      using len True by (subst splitLines_loop_unfold) simp
    show ?thesis
    proof (cases "i = length d + 1")
      case True
      have "splitLines_loop D (i + 1) (i + 1) (lines @ [?l]) = (lines @ [?l]) @ [[]]"
        using splitLines_loop_terminator [of "length d" d "lines @ [?l]"] True "1.prems"(1)
        by simp
      then have "splitLines_loop D start i lines = lines @ [?l] @ [[]]" using u by simp
      then show ?thesis by blast
    next
      case False
      then have "i + 1 \<le> length d + 1" using "1.prems" by simp
      from "1.IH"(1) [OF len \<open>D ! i = LF\<close> "1.prems"(1) this]
      obtain ls where "splitLines_loop D (i + 1) (i + 1) (lines @ [?l]) = (lines @ [?l]) @ ls @ [[]]"
        by blast
      then have "splitLines_loop D start i lines = lines @ (?l # ls) @ [[]]" using u by simp
      then show ?thesis by blast
    qed
  next
    case False
    then have "i \<noteq> length d + 1" using lf by auto
    then have le: "i + 1 \<le> length d + 1" using "1.prems" by simp
    have u: "splitLines_loop D start i lines = splitLines_loop D start (i + 1) lines"
      using len False by (subst splitLines_loop_unfold) simp
    from "1.IH"(2) [OF len False "1.prems"(1) le] u show ?thesis by simp
  qed
qed

lemma splitLines_terminated:
  "\<exists>l0 ls. splitLines (d @ CRLFCRLF) = l0 # ls @ [[]]"
proof -
  obtain ls where "ls \<noteq> []" and "splitLines (d @ CRLFCRLF) = ls @ [[]]"
    using splitLines_loop_ends_empty [of "d @ CRLFCRLF" d 0 0 "[]"]
    by (auto simp: splitLines_def)
  then show ?thesis by (cases ls) auto
qed

lemma parseHTTPReq_dist_never_succeeds:
  "parseHTTPReq_dist (d @ CRLFCRLF) \<noteq> Inr r"
proof -
  obtain l0 ls where s: "splitLines (d @ CRLFCRLF) = l0 # ls @ [[]]"
    using splitLines_terminated by blast
  obtain e where "collectHeaders_dist (ls @ [[]]) [] = Inl e"
    using collectHeaders_dist_empty_line [of "ls @ [[]]" "[]"] by auto
  then show ?thesis
    by (auto simp: parseHTTPReq_dist_def s split: sum.splits)
qed

section \<open>The connection-bounded reader and the response writer in general\<close>

text \<open>
  What \<open>read\<close> of a connection-bounded reader does in each of its cases. With bytes in
  the buffer it returns the first \<open>min (buf.length, remain)\<close> valid bytes and pops them.
  With an empty buffer it reads from the transport once; \<open>bufpush\<close> then makes all of
  \<open>buf.data\<close> valid again (lemma \<open>valid_bufpush\<close>), so the bytes returned are a prefix of
  the old physical bytes followed by the new chunk (lemma \<open>read_connLength_refill_result\<close>),
  not of the chunk alone. For a response whose body is a memory reader over \<open>d\<close>, the
  stream gets the header block with the length of \<open>d\<close> and then \<open>d\<close> itself.
\<close>

lemma bufPop_valid:
  assumes "wf_buf b" and "0 \<le> n" and "n \<le> lengthD b"
  shows "valid (bufPop b n) = drop (nat n) (valid b)" and "wf_buf (bufPop b n)"
proof -
  have d: "data (bufPop b n)
             = take (nat (lengthD b - n)) (drop (nat n) (data b))
               @ drop (nat (lengthD b - n)) (data b)"
    using assms by (simp add: bufPop_def copyWithin_shift wf_buf_def)
  have l: "lengthD (bufPop b n) = lengthD b - n" by (simp add: bufPop_def)
  show w: "wf_buf (bufPop b n)"
    using assms by (simp add: wf_buf_def bufPop_def length_copyWithin)
  have k: "nat (lengthD b - n) \<le> length (data b) - nat n"
    using assms by (simp add: wf_buf_def)
  have "valid (bufPop b n) = take (nat (lengthD b - n)) (data (bufPop b n))"
    using assms l by (simp add: valid_take)
  also have "\<dots> = take (nat (lengthD b - n)) (drop (nat n) (data b))"
    unfolding d using k by simp
  also have "\<dots> = drop (nat n) (take (nat (lengthD b)) (data b))"
    using assms by (simp add: drop_take nat_diff_distrib')
  also have "\<dots> = drop (nat n) (valid b)"
    using assms by (simp add: valid_take wf_buf_def)
  finally show "valid (bufPop b n) = drop (nat n) (valid b)" .
qed

lemma valid_bufpush: "valid (bufpush b d) = data b @ d"
  by (simp add: valid_take bufpush_def)

lemma lengthD_bufpush: "lengthD (bufpush b d) = int (length (data b @ d))"
  by (simp add: bufpush_def)

lemma wf_bufpush: "wf_buf (bufpush b d)"
  by (simp add: wf_buf_def bufpush_def)

lemma soRead_keeps_buf: "soRead w = (r, w1) \<Longrightarrow> buf w1 = buf w \<and> readers w1 = readers w"
  by (auto simp: soRead_def Let_def split: option.splits if_splits list.splits event.splits)

lemma read_connLength_done:
  "read_connLength 0 w = (Return ([], ConnLengthReader 0), w)"
  by (simp add: read_connLength_def)

lemma take_body_prefix:
  assumes "wf_buf (buf w)" and "0 < lengthD (buf w)" and "0 < remain"
  shows "take_body remain w =
           (Return (take (nat (min (lengthD (buf w)) remain)) (valid (buf w)),
                    ConnLengthReader (remain - min (lengthD (buf w)) remain)),
            w\<lparr>buf := bufPop (buf w) (min (lengthD (buf w)) remain)\<rparr>)"
    and "valid (bufPop (buf w) (min (lengthD (buf w)) remain))
           = drop (nat (min (lengthD (buf w)) remain)) (valid (buf w))"
proof -
  let ?k = "min (lengthD (buf w)) remain"
  have k: "0 \<le> ?k" "?k \<le> lengthD (buf w)" using assms by simp_all
  have "subarray (data (buf w)) 0 ?k = take (nat ?k) (data (buf w))"
    using k by (simp add: subarray_prefix)
  also have "\<dots> = take (nat ?k) (valid (buf w))"
    using assms k by (simp add: valid_take min_def)
  finally show "take_body remain w =
           (Return (take (nat ?k) (valid (buf w)), ConnLengthReader (remain - ?k)),
            w\<lparr>buf := bufPop (buf w) ?k\<rparr>)"
    by (simp add: take_body_def Let_def)
  show "valid (bufPop (buf w) ?k) = drop (nat ?k) (valid (buf w))"
    using bufPop_valid(1) [OF assms(1) k] .
qed

lemma read_connLength_buffered:
  assumes "lengthD (buf w) \<noteq> 0" and "remain \<noteq> 0"
  shows "read_connLength remain w = take_body remain w"
  using assms by (simp add: read_connLength_def)

lemma read_connLength_refill:
  assumes "lengthD (buf w) = 0" and "remain \<noteq> 0" and "soRead w = (Return d, w1)"
  shows "read_connLength remain w =
           (if d = [] then (Throw (Error ''Unexpected EOF from HTTP body''),
                            w1\<lparr>buf := bufpush (buf w) d\<rparr>)
            else take_body remain (w1\<lparr>buf := bufpush (buf w) d\<rparr>))"
  using assms soRead_keeps_buf [OF assms(3)]
  by (simp add: read_connLength_def bind_def Let_def)

lemma read_connLength_refill_result:
  assumes "lengthD (buf w) = 0" and "0 < remain" and "soRead w = (Return d, w1)" and "d \<noteq> []"
  shows "fst (read_connLength remain w) =
           Return (take (nat (min (int (length (data (buf w) @ d))) remain)) (data (buf w) @ d),
                   ConnLengthReader (remain - min (int (length (data (buf w) @ d))) remain))"
proof -
  let ?w = "w1\<lparr>buf := bufpush (buf w) d\<rparr>"
  have r: "read_connLength remain w = take_body remain ?w"
    using read_connLength_refill [OF assms(1) _ assms(3)] assms(2,4) by simp
  have l: "lengthD (buf ?w) = int (length (data (buf w) @ d))" by (simp add: lengthD_bufpush)
  have p: "0 < lengthD (buf ?w)" using assms(4) unfolding l by (cases d) simp_all
  have w: "wf_buf (buf ?w)" by (simp add: wf_bufpush)
  show ?thesis
    unfolding r take_body_prefix(1) [OF w p assms(2)]
    by (simp add: valid_bufpush lengthD_bufpush del: length_append)
qed

lemma writeBody_memory:
  assumes "ref r < length (readers w)" and "readers w ! ref r = MemoryReader d False"
    and "err (conn w) = None"
  shows "writeBody (Suc (Suc k)) r w =
           (Return (),
            w\<lparr>conn := (conn w)\<lparr>written := written (conn w) @ (if d = [] then [] else [d])\<rparr>,
              readers := (readers w)[ref r := MemoryReader d True]\<rparr>)"
proof -
  have 1: "read r w = (Return d, w\<lparr>readers := (readers w)[ref r := MemoryReader d True]\<rparr>)"
    using assms by (simp add: read_def read_state_def read_memory_def bind_def)
  show ?thesis
  proof (cases "d = []")
    case True
    then show ?thesis using 1 by (simp add: bind_def)
  next
    case False
    let ?w1 = "w\<lparr>readers := (readers w)[ref r := MemoryReader d True]\<rparr>"
    let ?w2 = "?w1\<lparr>conn := (conn w)\<lparr>written := written (conn w) @ [d]\<rparr>\<rparr>"
    have 2: "soWrite d ?w1 = (Return (), ?w2)"
      using assms by (simp add: soWrite_def Let_def)
    have 3: "read r ?w2 = (Return [], ?w2)"
      using assms by (simp add: read_def read_state_def read_memory_def bind_def)
    show ?thesis using False 1 2 3 by (simp add: bind_def)
  qed
qed

lemma writeHTTPResp_memory:
  assumes "ref (body resp) < length (readers w)"
    and "readers w ! ref (body resp) = MemoryReader d False"
    and "lengthR (body resp) = int (length d)"
    and "err (conn w) = None"
  shows "fst (writeHTTPResp (Suc (Suc k)) resp w) = Return ()"
    and "written (conn (snd (writeHTTPResp (Suc (Suc k)) resp w)))
           = written (conn w)
             @ [''HTTP/1.1 '' @ numToString (code resp) @ '' OK'' @ CRLF
                @ concat (map (\<lambda>h. h @ CRLF) (headersR resp))
                @ ''Content-Length: '' @ numToString (int (length d)) @ CRLF]
             @ (if d = [] then [] else [d])"
proof -
  let ?resp1 = "resp\<lparr>headersR := headersR resp
                   @ [''Content-Length: '' @ numToString (lengthR (body resp))]\<rparr>"
  let ?w1 = "w\<lparr>conn := (conn w)\<lparr>written := written (conn w) @ [encodeHTTPResp ?resp1]\<rparr>\<rparr>"
  have 1: "soWrite (encodeHTTPResp ?resp1) w = (Return (), ?w1)"
    using assms(4) by (simp add: soWrite_def Let_def)
  have 2: "writeHTTPResp (Suc (Suc k)) resp w = writeBody (Suc (Suc k)) (body resp) ?w1"
    using assms(3) 1 by (simp add: writeHTTPResp_def Let_def bind_def)
  have 3: "writeBody (Suc (Suc k)) (body resp) ?w1 =
           (Return (),
            ?w1\<lparr>conn := (conn ?w1)\<lparr>written := written (conn ?w1) @ (if d = [] then [] else [d])\<rparr>,
              readers := (readers ?w1)[ref (body resp) := MemoryReader d True]\<rparr>)"
    by (rule writeBody_memory) (use assms in simp_all)
  show "fst (writeHTTPResp (Suc (Suc k)) resp w) = Return ()"
    unfolding 2 3 by simp
  show "written (conn (snd (writeHTTPResp (Suc (Suc k)) resp w)))
           = written (conn w)
             @ [''HTTP/1.1 '' @ numToString (code resp) @ '' OK'' @ CRLF
                @ concat (map (\<lambda>h. h @ CRLF) (headersR resp))
                @ ''Content-Length: '' @ numToString (int (length d)) @ CRLF]
             @ (if d = [] then [] else [d])"
    unfolding 2 3 using assms(3) by (simp add: encodeHTTPResp_shape)
qed

end
